theory Spec2Isabelle
  imports Complex_Main "HOL-Library.Sublist"
begin

section \<open>The scan payload\<close>

text \<open>
  The component \<open>ServiceNowScanner\<close> keeps the JSON answer of the scan request in the
  state variable \<open>scanResults\<close> and derives everything it shows from it. The payload is
  untyped JSON, and the code guards the two array fields with a truthiness test and
  \<open>Array.isArray\<close>; a field is therefore one of: falsy or absent (\<open>Missing\<close>), truthy
  but not an array (\<open>NotArray\<close>), or an array (\<open>Arr\<close>).
\<close>

datatype 'a js_array = Missing | NotArray | Arr "'a list"

record owner_candidate =
  username :: string
  display_name :: string
  score :: int

text \<open>
  \<open>risk_level\<close> is \<open>None\<close> when the field is absent (\<open>undefined\<close> or \<open>null\<close>).
  \<open>recommended_owners\<close> is the empty list when there is no recommendation.
\<close>

record ci =
  ci_id :: string
  ci_name :: string
  ci_class :: string
  current_owner :: string
  risk_level :: "string option"
  recommended_owners :: "owner_candidate list"

text \<open>A group of the payload field \<open>grouped_by_owners\<close>, as the upstream service sent it.\<close>

record owner_group =
  recommended_owner :: owner_candidate
  total_cis :: int
  cis_to_assign :: "ci list"

record summary =
  total_cis_analyzed :: "int option"
  stale_cis_found :: "int option"
  critical_risk :: "int option"
  high_risk :: "int option"
  recommended_owners_count :: "int option"

text \<open>
  The payload. \<open>error\<close> is \<open>None\<close> when the payload has no such field; the failure
  branches of \<open>scanStaleOwnership\<close> store an object that holds this field alone. Every
  numeric field of the summary may be absent. Strings are lists of 8-bit characters.
\<close>

record scan_result =
  error :: "string option"
  summary :: "summary option"
  stale_cis :: "ci js_array"
  grouped_by_owners :: "owner_group js_array"

section \<open>The component state\<close>

text \<open>
  One field per \<open>useState\<close> hook that the result explorer reads. \<open>itemsPerPage\<close> is a
  hook without a setter, initialised to 50, hence a constant. Page numbers are JavaScript
  numbers that only ever hold integers; they are modelled as \<open>int\<close>.
\<close>

record state =
  scanResults :: "scan_result option"
  expandedCI :: "string option"
  showGroupedView :: bool
  currentPage :: int
  expandedAlternates :: "string set"
  activeFilter :: string

definition itemsPerPage :: int where
  "itemsPerPage = 50"

definition initialState :: state where
  "initialState = \<lparr>scanResults = None, expandedCI = None, showGroupedView = False,
     currentPage = 1, expandedAlternates = {}, activeFilter = ''all''\<rparr>"

section \<open>JavaScript primitives\<close>

text \<open>
  \<open>String.prototype.toLowerCase\<close> on the ASCII letters; every other character is left
  as it is.
\<close>

definition toLowerChar :: "char \<Rightarrow> char" where
  "toLowerChar c =
     (case map_of (zip ''ABCDEFGHIJKLMNOPQRSTUVWXYZ'' ''abcdefghijklmnopqrstuvwxyz'') c of
        None \<Rightarrow> c
      | Some l \<Rightarrow> l)"

definition toLowerCase :: "string \<Rightarrow> string" where
  "toLowerCase s = map toLowerChar s"

text \<open>
  \<open>Array.prototype.slice(start, end)\<close> for integer arguments: a negative index counts
  from the end, both indices are clamped to the array, and an empty range gives the
  empty array. It never raises.
\<close>

definition slice :: "'a list \<Rightarrow> int \<Rightarrow> int \<Rightarrow> 'a list" where
  "slice xs startIndex endIndex =
     (let len = int (length xs);
          k = (if startIndex < 0 then max (len + startIndex) 0 else min startIndex len);
          final = (if endIndex < 0 then max (len + endIndex) 0 else min endIndex len)
      in take (nat (final - k)) (drop (nat k) xs))"

section \<open>Filtering and pagination\<close>

text \<open>\<open>ci.risk_level ? ci.risk_level.toLowerCase() : ''\<close>\<close>

definition riskKey :: "ci \<Rightarrow> string" where
  "riskKey c = (case risk_level c of None \<Rightarrow> [] | Some r \<Rightarrow> if r = [] then [] else toLowerCase r)"

definition getFilteredCIs :: "state \<Rightarrow> ci list" where
  "getFilteredCIs st =
     (case scanResults st of
        None \<Rightarrow> []
      | Some r \<Rightarrow>
          (case stale_cis r of
             Missing \<Rightarrow> []
           | NotArray \<Rightarrow> []
           | Arr items \<Rightarrow>
               if activeFilter st = ''all'' then items
               else filter (\<lambda>c. riskKey c = activeFilter st) items))"

definition getPaginatedCIs :: "state \<Rightarrow> ci list" where
  "getPaginatedCIs st =
     (let filteredCIs = getFilteredCIs st;
          startIndex = (currentPage st - 1) * itemsPerPage;
          endIndex = startIndex + itemsPerPage
      in slice filteredCIs startIndex endIndex)"

text \<open>
  \<open>Math.ceil(filteredCIs.length / itemsPerPage)\<close>: the quotient is taken in the reals
  and rounded up.
\<close>

definition getTotalPages :: "state \<Rightarrow> int" where
  "getTotalPages st =
     (let filteredCIs = getFilteredCIs st
      in if length filteredCIs = 0 then 0
         else \<lceil>real (length filteredCIs) / real_of_int itemsPerPage\<rceil>)"

section \<open>Event handlers\<close>

definition setFilter :: "string \<Rightarrow> state \<Rightarrow> state" where
  "setFilter f st = st\<lparr>activeFilter := f, currentPage := 1, expandedCI := None, expandedAlternates := {}\<rparr>"

definition goToPage :: "int \<Rightarrow> state \<Rightarrow> state" where
  "goToPage page st = st\<lparr>currentPage := page, expandedCI := None\<rparr>"

definition goToNextPage :: "state \<Rightarrow> state" where
  "goToNextPage st = (if currentPage st < getTotalPages st then goToPage (currentPage st + 1) st else st)"

definition goToPrevPage :: "state \<Rightarrow> state" where
  "goToPrevPage st = (if currentPage st > 1 then goToPage (currentPage st - 1) st else st)"

definition toggleCIExpansion :: "string \<Rightarrow> state \<Rightarrow> state" where
  "toggleCIExpansion ciId st = st\<lparr>expandedCI := (if expandedCI st = Some ciId then None else Some ciId)\<rparr>"

definition toggleAlternateRecommendations :: "string \<Rightarrow> state \<Rightarrow> state" where
  "toggleAlternateRecommendations ciId st =
     st\<lparr>expandedAlternates :=
        (if ciId \<in> expandedAlternates st then expandedAlternates st - {ciId}
         else insert ciId (expandedAlternates st))\<rparr>"

text \<open>
  The effect registered with \<open>useEffect(..., [scanResults])\<close>. React runs it after a
  render in which \<open>scanResults\<close> is not identical to its previous value.
\<close>

definition resetPagination :: "state \<Rightarrow> state" where
  "resetPagination st = st\<lparr>currentPage := 1, expandedCI := None, expandedAlternates := {}, activeFilter := ''all''\<rparr>"

text \<open>
  \<open>setScanResults\<close> followed by the effect. A payload is a fresh object (the value of
  \<open>response.json()\<close> or an object literal holding the error message), never identical
  to the value held before, so the effect runs; \<open>null\<close> is identical to \<open>null\<close>, and
  then it does not.
\<close>

definition setScanResults :: "scan_result option \<Rightarrow> state \<Rightarrow> state" where
  "setScanResults v st =
     (if v = None \<and> scanResults st = None then st
      else resetPagination (st\<lparr>scanResults := v\<rparr>))"

section \<open>Rendering\<close>

text \<open>
  What the component puts on the screen for a state, reduced to the data it shows: nothing
  while \<open>scanResults\<close> is \<open>null\<close>; the error card alone when \<open>scanResults.error\<close> is
  truthy; otherwise the summary cards, the rows of the stale-CI list and the groups of the
  section "Grouped by Recommended Owners".
\<close>

text \<open>\<open>scanResults.summary.field || 0\<close>, and 0 when there is no summary.\<close>

definition orZero :: "int option \<Rightarrow> int" where
  "orZero v = (case v of None \<Rightarrow> 0 | Some n \<Rightarrow> n)"

definition summaryValue :: "scan_result \<Rightarrow> (summary \<Rightarrow> int option) \<Rightarrow> int" where
  "summaryValue r field = (case summary r of None \<Rightarrow> 0 | Some s \<Rightarrow> orZero (field s))"

definition summaryCards :: "scan_result \<Rightarrow> (string \<times> int) list" where
  "summaryCards r =
     [(''Total CIs'', summaryValue r total_cis_analyzed),
      (''Stale Found'', summaryValue r stale_cis_found),
      (''Critical Risk'', summaryValue r critical_risk),
      (''High Risk'', summaryValue r high_risk),
      (''Recommended Owners'', summaryValue r recommended_owners_count)]"

text \<open>
  The rows of the list: \<open>getPaginatedCIs().map(...)\<close> when \<open>stale_cis\<close> is truthy and
  has a positive length, and the message "No stale ownership detected!" (no row)
  otherwise. For a truthy value that is not an array either branch shows no row, since
  \<open>getFilteredCIs\<close> is empty then.
\<close>

definition staleRows :: "state \<Rightarrow> scan_result \<Rightarrow> ci list" where
  "staleRows st r =
     (case stale_cis r of
        Missing \<Rightarrow> []
      | NotArray \<Rightarrow> []
      | Arr items \<Rightarrow> if length items > 0 then getPaginatedCIs st else [])"

text \<open>
  The section "Grouped by Recommended Owners", a part of the results branch of the
  render: it maps over \<open>scanResults.grouped_by_owners\<close>, guarded by
  \<open>scanResults && grouped_by_owners && Array.isArray(grouped_by_owners) &&
  grouped_by_owners.length > 0 && showGroupedView\<close>. Each group shows its own
  \<open>total_cis\<close> and \<open>cis_to_assign\<close>. The payload \<open>r\<close> is the value of
  \<open>scanResults\<close>, which is not \<open>null\<close> in that branch.
\<close>

definition groupedSection :: "state \<Rightarrow> scan_result \<Rightarrow> owner_group list" where
  "groupedSection st r =
     (case grouped_by_owners r of
        Missing \<Rightarrow> []
      | NotArray \<Rightarrow> []
      | Arr groups \<Rightarrow> if length groups > 0 \<and> showGroupedView st then groups else [])"

record results_view =
  cards :: "(string \<times> int) list"
  rows :: "ci list"
  ownerGroups :: "owner_group list"

datatype view = NothingShown | ErrorCard string | ResultsShown results_view

definition resultsView :: "state \<Rightarrow> scan_result \<Rightarrow> results_view" where
  "resultsView st r = \<lparr>cards = summaryCards r, rows = staleRows st r, ownerGroups = groupedSection st r\<rparr>"

text \<open>\<open>scanResults && (scanResults.error ? errorCard : results)\<close>\<close>

definition render :: "state \<Rightarrow> view" where
  "render st =
     (case scanResults st of
        None \<Rightarrow> NothingShown
      | Some r \<Rightarrow>
          (case error r of
             None \<Rightarrow> ResultsShown (resultsView st r)
           | Some msg \<Rightarrow> if msg \<noteq> [] then ErrorCard msg else ResultsShown (resultsView st r)))"

text \<open>
  The groups on the screen: those of the grouped section when the results are rendered,
  and none when nothing or the error card is rendered.
\<close>

definition groupedOwnersView :: "state \<Rightarrow> owner_group list" where
  "groupedOwnersView st =
     (case render st of
        NothingShown \<Rightarrow> []
      | ErrorCard msg \<Rightarrow> []
      | ResultsShown v \<Rightarrow> ownerGroups v)"

section \<open>Notions of the specification\<close>

text \<open>
  The four risk categories, with the key that \<open>setFilter\<close> receives for each (the
  \<open>filter\<close> values of the summary cards and the comment on \<open>activeFilter\<close>) and the
  name the payload uses in \<open>risk_level\<close> (the cases of \<open>getRiskColor\<close>).
\<close>

datatype risk_category = Critical | High | Medium | Low

fun filterKey :: "risk_category \<Rightarrow> string" where
  "filterKey Critical = ''critical''"
| "filterKey High = ''high''"
| "filterKey Medium = ''medium''"
| "filterKey Low = ''low''"

fun categoryName :: "risk_category \<Rightarrow> string" where
  "categoryName Critical = ''Critical''"
| "categoryName High = ''High''"
| "categoryName Medium = ''Medium''"
| "categoryName Low = ''Low''"

definition equalsIgnoreCase :: "string \<Rightarrow> string \<Rightarrow> bool" where
  "equalsIgnoreCase a b = (toLowerCase a = toLowerCase b)"

text \<open>A CI matches a category when it has a risk level that equals the category's name up to case.\<close>

definition matchesCategory :: "risk_category \<Rightarrow> ci \<Rightarrow> bool" where
  "matchesCategory c x = (case risk_level x of None \<Rightarrow> False | Some l \<Rightarrow> equalsIgnoreCase l (categoryName c))"

definition hasRecommendation :: "ci \<Rightarrow> bool" where
  "hasRecommendation x = (length (recommended_owners x) > 0)"

text \<open>The page is in range: between 1 and the number of pages (1 when there is no page).\<close>

definition pageInRange :: "state \<Rightarrow> bool" where
  "pageInRange st = (1 \<le> currentPage st \<and> currentPage st \<le> max 1 (getTotalPages st))"

section \<open>Sample payloads and states\<close>

definition sampleCI :: "nat \<Rightarrow> ci" where
  "sampleCI n = \<lparr>ci_id = ''ci'' @ replicate n (CHR ''x''), ci_name = ''server'',
     ci_class = ''cmdb_ci_server'', current_owner = ''carol'', risk_level = Some ''High'',
     recommended_owners = []\<rparr>"

definition payloadOf :: "ci list \<Rightarrow> scan_result" where
  "payloadOf items = \<lparr>error = None, summary = None, stale_cis = Arr items, grouped_by_owners = Missing\<rparr>"

text \<open>Exactly 50 stale CIs, filter \<open>all\<close>, and page 2 requested.\<close>

definition fiftyCIs :: "ci list" where
  "fiftyCIs = map sampleCI [0..<50]"

definition fiftyState :: state where
  "fiftyState = initialState\<lparr>scanResults := Some (payloadOf fiftyCIs), currentPage := 2\<rparr>"

text \<open>The same result on its only page, with a CI expanded.\<close>

definition lastPageState :: state where
  "lastPageState = fiftyState\<lparr>currentPage := 1, expandedCI := Some ''ci''\<rparr>"

text \<open>120 stale CIs (three pages), on page 2, with a CI expanded and its alternates open.\<close>

definition manyCIs :: "ci list" where
  "manyCIs = map sampleCI [0..<120]"

definition midState :: state where
  "midState = initialState\<lparr>scanResults := Some (payloadOf manyCIs), currentPage := 2,
     expandedCI := Some ''ci'', expandedAlternates := {''ci''}\<rparr>"

text \<open>Risk levels in several spellings, one absent, one unknown and one empty.\<close>

definition withRisk :: "string option \<Rightarrow> ci \<Rightarrow> ci" where
  "withRisk l x = x\<lparr>risk_level := l\<rparr>"

definition mixedCIs :: "ci list" where
  "mixedCIs = [withRisk (Some ''HIGH'') (sampleCI 0), withRisk None (sampleCI 1),
               withRisk (Some ''Low'') (sampleCI 2), withRisk (Some ''high'') (sampleCI 3),
               withRisk (Some ''urgent'') (sampleCI 4), withRisk (Some []) (sampleCI 5)]"

text \<open>
  A CI whose primary recommendation is \<open>alice\<close>, in a payload without the optional
  field \<open>grouped_by_owners\<close>, with the grouped view switched on.
\<close>

definition alice :: owner_candidate where
  "alice = \<lparr>username = ''alice'', display_name = ''Alice'', score = 87\<rparr>"

definition ciAlice :: ci where
  "ciAlice = (sampleCI 0)\<lparr>recommended_owners := [alice]\<rparr>"

definition ungroupedState :: state where
  "ungroupedState = initialState\<lparr>scanResults := Some (payloadOf [ciAlice]), showGroupedView := True\<rparr>"

text \<open>
  The same CI with the group that the upstream service sent for \<open>alice\<close>, the grouped
  view switched on; and the same payload carrying an error message as well.
\<close>

definition groupAlice :: owner_group where
  "groupAlice = \<lparr>recommended_owner = alice, total_cis = 1, cis_to_assign = [ciAlice]\<rparr>"

definition groupedPayload :: scan_result where
  "groupedPayload = (payloadOf [ciAlice])\<lparr>grouped_by_owners := Arr [groupAlice]\<rparr>"

definition groupedState :: state where
  "groupedState = initialState\<lparr>scanResults := Some groupedPayload, showGroupedView := True\<rparr>"

definition errorGroupedState :: state where
  "errorGroupedState = initialState\<lparr>scanResults := Some (groupedPayload\<lparr>error := Some ''quota''\<rparr>),
     showGroupedView := True\<rparr>"

text \<open>A payload that has an \<open>error\<close> field holding the empty string, beside a stale CI.\<close>

definition emptyErrorState :: state where
  "emptyErrorState = initialState\<lparr>scanResults := Some ((payloadOf [ciAlice])\<lparr>error := Some []\<rparr>)\<rparr>"

section \<open>Slices, pages and the filtered sequence\<close>

lemma slice_window:
  "0 \<le> s \<Longrightarrow> 0 \<le> w \<Longrightarrow> slice xs s (s + w) = take (nat w) (drop (nat s) xs)"
  by (cases "s \<le> int (length xs)") (auto simp: slice_def Let_def min_def)

lemma length_slice_window: "0 \<le> w \<Longrightarrow> length (slice xs s (s + w)) \<le> nat w"
  by (auto simp: slice_def Let_def min_def max_def)

text \<open>The filtered sequence depends on the payload and the active filter only.\<close>

lemma getFilteredCIs_currentPage [simp]:
  "getFilteredCIs (st\<lparr>currentPage := p\<rparr>) = getFilteredCIs st"
  by (simp add: getFilteredCIs_def split: option.split js_array.split)

lemma getFilteredCIs_expandedCI [simp]:
  "getFilteredCIs (st\<lparr>expandedCI := e\<rparr>) = getFilteredCIs st"
  by (simp add: getFilteredCIs_def split: option.split js_array.split)

lemma getFilteredCIs_expandedAlternates [simp]:
  "getFilteredCIs (st\<lparr>expandedAlternates := a\<rparr>) = getFilteredCIs st"
  by (simp add: getFilteredCIs_def split: option.split js_array.split)

lemma getTotalPages_currentPage [simp]:
  "getTotalPages (st\<lparr>currentPage := p\<rparr>) = getTotalPages st"
  by (simp add: getTotalPages_def)

lemma getTotalPages_expandedCI [simp]:
  "getTotalPages (st\<lparr>expandedCI := e\<rparr>) = getTotalPages st"
  by (simp add: getTotalPages_def)

lemma getTotalPages_expandedAlternates [simp]:
  "getTotalPages (st\<lparr>expandedAlternates := a\<rparr>) = getTotalPages st"
  by (simp add: getTotalPages_def)

lemma getPaginatedCIs_take_drop:
  "1 \<le> currentPage st \<Longrightarrow>
   getPaginatedCIs st = take 50 (drop (nat ((currentPage st - 1) * 50)) (getFilteredCIs st))"
  using slice_window [of "(currentPage st - 1) * 50" 50 "getFilteredCIs st"]
  by (simp add: getPaginatedCIs_def Let_def itemsPerPage_def)

lemma length_getPaginatedCIs: "length (getPaginatedCIs st) \<le> 50"
  using length_slice_window [of 50 "getFilteredCIs st" "(currentPage st - 1) * 50"]
  by (simp add: getPaginatedCIs_def Let_def itemsPerPage_def)

text \<open>The rounded-up real quotient, in integer arithmetic.\<close>

lemma getTotalPages_div:
  "getTotalPages st = (int (length (getFilteredCIs st)) + 49) div 50"
proof -
  have "\<lceil>real n / 50\<rceil> = (int n + 49) div 50" for n :: nat
  proof -
    have "\<lceil>real n / 50\<rceil> = \<lceil>of_int (int n) / of_int 50 :: real\<rceil>" by simp
    also have "\<dots> = - (- int n div 50)" by (rule ceiling_divide_eq_div)
    also have "\<dots> = (int n + 49) div 50" by linarith
    finally show ?thesis .
  qed
  then show ?thesis by (simp add: getTotalPages_def Let_def itemsPerPage_def)
qed

lemma page_beyond_total:
  assumes "getTotalPages st < currentPage st"
  shows "int (length (getFilteredCIs st)) \<le> (currentPage st - 1) * 50"
  using assms unfolding getTotalPages_div by (simp add: div_less_iff_less_mult)

lemma concat_chunks:
  "concat (map (\<lambda>k. take n (drop (k * n) xs)) [0..<m]) = take (m * n) xs"
proof (induction m)
  case 0
  show ?case by simp
next
  case (Suc m)
  have "take (m * n) xs @ take n (drop (m * n) xs) = take (m * n + n) xs"
    by (simp add: take_add)
  with Suc show ?case by (simp add: add.commute)
qed

lemma upto_as_upt: "[1..int m] = map (\<lambda>k. int k + 1) [0..<m]"
proof (induction m)
  case 0
  show ?case by simp
next
  case (Suc m)
  have "[1..int (Suc m)] = [1..int m] @ [int m + 1]"
    by (simp add: upto_rec2 add.commute)
  with Suc show ?case by simp
qed

lemma concat_pages:
  "concat (map (\<lambda>p. getPaginatedCIs (st\<lparr>currentPage := p\<rparr>)) [1..getTotalPages st]) = getFilteredCIs st"
proof -
  define xs where "xs = getFilteredCIs st"
  define m where "m = (length xs + 49) div 50"
  have T: "getTotalPages st = int m"
    by (simp add: getTotalPages_div xs_def m_def zdiv_int)
  have page: "getPaginatedCIs (st\<lparr>currentPage := int k + 1\<rparr>) = take 50 (drop (k * 50) xs)" for k
    using getPaginatedCIs_take_drop [of "st\<lparr>currentPage := int k + 1\<rparr>"]
    by (simp add: xs_def nat_mult_distrib)
  have "concat (map (\<lambda>p. getPaginatedCIs (st\<lparr>currentPage := p\<rparr>)) [1..int m])
      = concat (map (\<lambda>k. take 50 (drop (k * 50) xs)) [0..<m])"
    by (simp add: upto_as_upt comp_def page)
  also have "\<dots> = take (m * 50) xs" by (rule concat_chunks)
  also have "\<dots> = xs"
  proof -
    have "length xs \<le> m * 50"
      unfolding m_def
      using div_mult_mod_eq [of "length xs + 49" 50] pos_mod_bound [of 50 "length xs + 49"] by simp
    then show ?thesis by simp
  qed
  finally show ?thesis by (simp add: T xs_def)
qed

text \<open>
  Every handler keeps the page in range, but for \<open>goToPage\<close>, which keeps it in range when
  it is given a page in range (the page buttons only hold such numbers).
\<close>

lemma pageInRange_initialState: "pageInRange initialState"
  by (simp add: pageInRange_def initialState_def)

lemma pageInRange_setFilter: "pageInRange (setFilter f st)"
  by (simp add: pageInRange_def setFilter_def)

lemma pageInRange_setScanResults: "pageInRange st \<Longrightarrow> pageInRange (setScanResults v st)"
  by (simp add: pageInRange_def setScanResults_def resetPagination_def)

lemma pageInRange_goToPage:
  "1 \<le> n \<Longrightarrow> n \<le> max 1 (getTotalPages st) \<Longrightarrow> pageInRange (goToPage n st)"
  by (simp add: pageInRange_def goToPage_def)

lemma pageInRange_goToNextPage: "pageInRange st \<Longrightarrow> pageInRange (goToNextPage st)"
  by (simp add: pageInRange_def goToNextPage_def goToPage_def)

lemma pageInRange_goToPrevPage: "pageInRange st \<Longrightarrow> pageInRange (goToPrevPage st)"
  by (simp add: pageInRange_def goToPrevPage_def goToPage_def)

lemma pageInRange_toggles:
  "pageInRange st \<Longrightarrow> pageInRange (toggleCIExpansion i st) \<and> pageInRange (toggleAlternateRecommendations i st)"
  by (simp add: pageInRange_def toggleCIExpansion_def toggleAlternateRecommendations_def)

section \<open>Facts about the sample states\<close>

lemma fiftyState_facts:
  "currentPage fiftyState = 2" "getFilteredCIs fiftyState = fiftyCIs" "length fiftyCIs = 50"
  by (simp_all add: fiftyState_def initialState_def getFilteredCIs_def payloadOf_def fiftyCIs_def)

lemma fiftyState_pages: "getTotalPages fiftyState = 1"
  by (simp add: getTotalPages_div fiftyState_facts)

lemma lastPageState_facts:
  "currentPage lastPageState = 1" "getTotalPages lastPageState = 1" "expandedCI lastPageState = Some ''ci''"
  using fiftyState_pages by (simp_all add: lastPageState_def)

lemma midState_facts:
  "currentPage midState = 2" "getTotalPages midState = 3" "expandedCI midState = Some ''ci''"
  "expandedAlternates midState = {''ci''}"
  by (simp_all add: midState_def initialState_def getTotalPages_div getFilteredCIs_def payloadOf_def manyCIs_def)

section \<open>The page used for slicing\<close>

text \<open>
  C1 (as amended). For every state whose requested page is at least 1, the rows are sliced
  at the requested page itself: they are the items from index \<open>(page - 1) * 50\<close> up to,
  not including, \<open>page * 50\<close> of the filtered sequence. The page is not clamped, and no
  clamped page is reported: when the requested page exceeds the number of pages the
  slice is empty. With exactly 50 items and page 2 requested, the slice is empty.
\<close>

theorem getPaginatedCIs_unclamped:
  "1 \<le> currentPage st \<Longrightarrow>
   getPaginatedCIs st = take 50 (drop (nat ((currentPage st - 1) * 50)) (getFilteredCIs st)) \<and>
   (getTotalPages st < currentPage st \<longrightarrow> getPaginatedCIs st = [])"
proof -
  assume p: "1 \<le> currentPage st"
  have "getPaginatedCIs st = []" if "getTotalPages st < currentPage st"
    using p page_beyond_total [OF that] by (simp add: getPaginatedCIs_take_drop)
  with p show ?thesis by (simp add: getPaginatedCIs_take_drop)
qed

theorem getPaginatedCIs_unclamped_witness:
  "1 \<le> currentPage fiftyState \<and> getTotalPages fiftyState < currentPage fiftyState \<and>
   getPaginatedCIs fiftyState = []"
  using getPaginatedCIs_unclamped [of fiftyState]
  by (simp add: fiftyState_facts fiftyState_pages)

text \<open>
  The claim as the specification states it fails: with 50 items there is one page, page 2
  is requested, and the rows differ from the slice at the clamped page \<open>max 1 totalPages\<close>,
  which holds all 50 items.
\<close>

theorem page_not_clamped_counterexample:
  "length (getFilteredCIs fiftyState) = 50 \<and> getTotalPages fiftyState = 1 \<and> currentPage fiftyState = 2 \<and>
   getPaginatedCIs fiftyState = [] \<and>
   getPaginatedCIs (fiftyState\<lparr>currentPage := max 1 (getTotalPages fiftyState)\<rparr>) = fiftyCIs \<and>
   getPaginatedCIs fiftyState \<noteq> getPaginatedCIs (fiftyState\<lparr>currentPage := max 1 (getTotalPages fiftyState)\<rparr>)"
proof -
  have a: "getPaginatedCIs fiftyState = []"
    by (simp add: getPaginatedCIs_take_drop fiftyState_facts)
  have b: "getPaginatedCIs (fiftyState\<lparr>currentPage := max 1 (getTotalPages fiftyState)\<rparr>) = fiftyCIs"
    by (simp add: getPaginatedCIs_take_drop fiftyState_facts fiftyState_pages)
  have c: "fiftyCIs \<noteq> []" using fiftyState_facts(3) by auto
  from a b c show ?thesis by (simp add: fiftyState_facts fiftyState_pages)
qed

section \<open>The grouped view\<close>

lemma groupedOwnersView_unfold:
  "groupedOwnersView st =
     (case scanResults st of
        None \<Rightarrow> []
      | Some r \<Rightarrow>
          (case error r of
             None \<Rightarrow> groupedSection st r
           | Some msg \<Rightarrow> if msg \<noteq> [] then [] else groupedSection st r))"
  by (simp add: groupedOwnersView_def render_def resultsView_def split: option.split)

text \<open>
  C2 (as amended). The component has no grouping of its own. When the payload has no
  truthy error (the field is absent or holds the empty string) and the grouped view is
  switched on, the groups on the screen are the groups of the payload field
  \<open>grouped_by_owners\<close>, unchanged and in the order received, each with its own
  \<open>total_cis\<close> and \<open>cis_to_assign\<close>. No group is shown when the payload has a
  truthy error (the error card alone is rendered), when the field is absent or not an
  array, when the grouped view is switched off, or when there is no scan result. The
  groups do not depend on the stale CIs, the active filter or the page.
\<close>

theorem groupedOwnersView_upstream:
  "groupedOwnersView (st\<lparr>scanResults := Some (r\<lparr>error := None, grouped_by_owners := Arr groups\<rparr>),
      showGroupedView := True\<rparr>) = groups \<and>
   groupedOwnersView (st\<lparr>scanResults := Some (r\<lparr>error := Some [], grouped_by_owners := Arr groups\<rparr>),
      showGroupedView := True\<rparr>) = groups \<and>
   groupedOwnersView (st\<lparr>scanResults := Some (r\<lparr>error := Some (ch # msg)\<rparr>)\<rparr>) = [] \<and>
   render (st\<lparr>scanResults := Some (r\<lparr>error := Some (ch # msg)\<rparr>)\<rparr>) = ErrorCard (ch # msg) \<and>
   groupedOwnersView (st\<lparr>scanResults := Some (r\<lparr>grouped_by_owners := Missing\<rparr>)\<rparr>) = [] \<and>
   groupedOwnersView (st\<lparr>scanResults := Some (r\<lparr>grouped_by_owners := NotArray\<rparr>)\<rparr>) = [] \<and>
   groupedOwnersView (st\<lparr>showGroupedView := False\<rparr>) = [] \<and>
   groupedOwnersView (st\<lparr>scanResults := None\<rparr>) = [] \<and>
   groupedOwnersView (st\<lparr>scanResults := Some (r\<lparr>stale_cis := S\<rparr>), activeFilter := f, currentPage := p\<rparr>)
     = groupedOwnersView (st\<lparr>scanResults := Some r\<rparr>)"
proof -
  have shown: "groupedOwnersView (st\<lparr>scanResults := Some (r\<lparr>error := e, grouped_by_owners := Arr groups\<rparr>),
      showGroupedView := True\<rparr>) = groups" if "e = None \<or> e = Some []" for e
    using that by (auto simp: groupedOwnersView_unfold groupedSection_def)
  have err: "groupedOwnersView (st\<lparr>scanResults := Some (r\<lparr>error := Some (ch # msg)\<rparr>)\<rparr>) = []"
    by (simp add: groupedOwnersView_unfold)
  have card: "render (st\<lparr>scanResults := Some (r\<lparr>error := Some (ch # msg)\<rparr>)\<rparr>) = ErrorCard (ch # msg)"
    by (simp add: render_def)
  have missing: "groupedOwnersView (st\<lparr>scanResults := Some (r\<lparr>grouped_by_owners := Missing\<rparr>)\<rparr>) = []"
    by (simp add: groupedOwnersView_unfold groupedSection_def split: option.split)
  have notarray: "groupedOwnersView (st\<lparr>scanResults := Some (r\<lparr>grouped_by_owners := NotArray\<rparr>)\<rparr>) = []"
    by (simp add: groupedOwnersView_unfold groupedSection_def split: option.split)
  have off: "groupedOwnersView (st\<lparr>showGroupedView := False\<rparr>) = []"
    by (simp add: groupedOwnersView_unfold groupedSection_def split: option.split js_array.split)
  have none: "groupedOwnersView (st\<lparr>scanResults := None\<rparr>) = []"
    by (simp add: groupedOwnersView_unfold)
  have indep: "groupedOwnersView (st\<lparr>scanResults := Some (r\<lparr>stale_cis := S\<rparr>), activeFilter := f, currentPage := p\<rparr>)
     = groupedOwnersView (st\<lparr>scanResults := Some r\<rparr>)"
    by (simp add: groupedOwnersView_unfold groupedSection_def split: option.split js_array.split)
  from shown [of None] shown [of "Some []"] err card missing notarray off none indep
  show ?thesis by simp
qed

theorem groupedOwnersView_upstream_witness:
  "groupedOwnersView groupedState = [groupAlice] \<and>
   groupedOwnersView errorGroupedState = [] \<and>
   render errorGroupedState = ErrorCard ''quota''"
proof -
  have g: "groupedState = initialState\<lparr>scanResults :=
      Some ((payloadOf [ciAlice])\<lparr>error := None, grouped_by_owners := Arr [groupAlice]\<rparr>), showGroupedView := True\<rparr>"
    by (simp add: groupedState_def groupedPayload_def payloadOf_def)
  have e: "errorGroupedState = (initialState\<lparr>showGroupedView := True\<rparr>)\<lparr>scanResults :=
      Some (groupedPayload\<lparr>error := Some (CHR ''q'' # ''uota'')\<rparr>)\<rparr>"
    by (simp add: errorGroupedState_def)
  from groupedOwnersView_upstream
    [where st = initialState and r = "payloadOf [ciAlice]" and groups = "[groupAlice]"]
  have a: "groupedOwnersView groupedState = [groupAlice]"
    unfolding g by blast
  from groupedOwnersView_upstream
    [where st = "initialState\<lparr>showGroupedView := True\<rparr>" and r = groupedPayload and ch = "CHR ''q''" and msg = "''uota''"]
  have b: "groupedOwnersView errorGroupedState = [] \<and> render errorGroupedState = ErrorCard ''quota''"
    unfolding e by simp
  from a b show ?thesis by simp
qed

text \<open>
  The claim as the specification states it fails: a payload with one stale CI that has a
  recommendation and no \<open>grouped_by_owners\<close> field shows no group, so the CI is in no
  group and the sum of the groups' totals is 0, not 1.
\<close>

theorem grouping_not_derived_counterexample:
  "getFilteredCIs ungroupedState = [ciAlice] \<and> hasRecommendation ciAlice \<and>
   length (filter hasRecommendation (getFilteredCIs ungroupedState)) = 1 \<and>
   groupedOwnersView ungroupedState = [] \<and>
   sum_list (map total_cis (groupedOwnersView ungroupedState)) = 0"
  by (simp add: ungroupedState_def initialState_def payloadOf_def getFilteredCIs_def groupedOwnersView_unfold
      groupedSection_def hasRecommendation_def ciAlice_def)

section \<open>Page navigation and the selection\<close>




section \<open>The risk filter\<close>

lemma toLowerCase_Nil: "toLowerCase [] = []"
  by (simp add: toLowerCase_def)

lemma toLowerCase_categoryName: "toLowerCase (categoryName c) = filterKey c"
  by (cases c) (simp_all add: toLowerCase_def toLowerChar_def)

lemma filterKey_not_all: "filterKey c \<noteq> ''all''"
  by (cases c) simp_all

lemma filterKey_not_empty: "filterKey c \<noteq> []" "[] \<noteq> filterKey c"
  by (cases c; simp)+

lemma riskKey_matches: "(riskKey x = filterKey c) = matchesCategory c x"
  by (cases "risk_level x")
     (auto simp: riskKey_def matchesCategory_def equalsIgnoreCase_def toLowerCase_categoryName
        filterKey_not_empty toLowerCase_Nil)

lemma getFilteredCIs_all:
  "getFilteredCIs (st\<lparr>scanResults := Some (r\<lparr>stale_cis := Arr S\<rparr>), activeFilter := ''all''\<rparr>) = S"
  by (simp add: getFilteredCIs_def)

lemma getFilteredCIs_category:
  "getFilteredCIs (st\<lparr>scanResults := Some (r\<lparr>stale_cis := Arr S\<rparr>), activeFilter := filterKey c\<rparr>)
     = filter (matchesCategory c) S"
  by (simp add: getFilteredCIs_def filterKey_not_all riskKey_matches)

lemma matchesCategory_risk_level:
  assumes "matchesCategory c x"
  shows "\<exists>l. risk_level x = Some l \<and> l \<noteq> [] \<and> equalsIgnoreCase l (categoryName c)"
  using assms
  by (cases "risk_level x")
     (auto simp: matchesCategory_def equalsIgnoreCase_def toLowerCase_categoryName filterKey_not_empty
        toLowerCase_Nil)

text \<open>
  C4. For every sequence \<open>S\<close> of stale CIs: with the filter \<open>all\<close> the filtered sequence
  is \<open>S\<close> itself; with the filter of a risk category it is the subsequence, in the
  original order, of the CIs whose risk level equals the category's name up to case; a
  CI in it always has a risk level, not empty, that equals the name up to case, so a CI
  with a missing or unknown risk level is in the result of no category.
\<close>

theorem getFilteredCIs_by_category:
  "getFilteredCIs (st\<lparr>scanResults := Some (r\<lparr>stale_cis := Arr S\<rparr>), activeFilter := ''all''\<rparr>) = S \<and>
   getFilteredCIs (st\<lparr>scanResults := Some (r\<lparr>stale_cis := Arr S\<rparr>), activeFilter := filterKey c\<rparr>)
     = filter (matchesCategory c) S \<and>
   subseq (getFilteredCIs (st\<lparr>scanResults := Some (r\<lparr>stale_cis := Arr S\<rparr>), activeFilter := filterKey c\<rparr>)) S \<and>
   (\<forall>x \<in> set (getFilteredCIs (st\<lparr>scanResults := Some (r\<lparr>stale_cis := Arr S\<rparr>), activeFilter := filterKey c\<rparr>)).
      \<exists>l. risk_level x = Some l \<and> l \<noteq> [] \<and> equalsIgnoreCase l (categoryName c))"
  using matchesCategory_risk_level [of c]
  by (simp add: getFilteredCIs_all getFilteredCIs_category)

theorem getFilteredCIs_by_category_witness:
  "getFilteredCIs (initialState\<lparr>scanResults := Some (payloadOf mixedCIs), activeFilter := ''all''\<rparr>) = mixedCIs \<and>
   getFilteredCIs (initialState\<lparr>scanResults := Some (payloadOf mixedCIs), activeFilter := ''high''\<rparr>)
     = [withRisk (Some ''HIGH'') (sampleCI 0), withRisk (Some ''high'') (sampleCI 3)] \<and>
   equalsIgnoreCase ''HIGH'' (categoryName High)"
proof -
  have p: "payloadOf mixedCIs = (payloadOf [])\<lparr>stale_cis := Arr mixedCIs\<rparr>"
    by (simp add: payloadOf_def)
  have f: "filter (matchesCategory High) mixedCIs
     = [withRisk (Some ''HIGH'') (sampleCI 0), withRisk (Some ''high'') (sampleCI 3)]"
    by (simp add: mixedCIs_def matchesCategory_def withRisk_def equalsIgnoreCase_def toLowerCase_def
        toLowerChar_def)
  have e: "equalsIgnoreCase ''HIGH'' (categoryName High)"
    by (simp add: equalsIgnoreCase_def toLowerCase_def toLowerChar_def)
  show ?thesis
    using getFilteredCIs_by_category [where st = initialState and r = "payloadOf []" and S = mixedCIs and c = High] e
    unfolding p [symmetric] f by simp
qed

section \<open>Pages partition the filtered sequence\<close>

text \<open>
  C5. With the page size 50, the number of pages is the quotient of the length of the
  filtered sequence by 50, rounded up, and 0 when the sequence is empty; the slice of
  every page has at most 50 items; and the slices of the pages 1 to the number of pages,
  concatenated in order, are the filtered sequence.
\<close>

theorem pages_partition_filtered:
  "getTotalPages st = \<lceil>real (length (getFilteredCIs st)) / 50\<rceil> \<and>
   (getFilteredCIs st = [] \<longrightarrow> getTotalPages st = 0) \<and>
   (\<forall>p. length (getPaginatedCIs (st\<lparr>currentPage := p\<rparr>)) \<le> 50) \<and>
   concat (map (\<lambda>p. getPaginatedCIs (st\<lparr>currentPage := p\<rparr>)) [1..getTotalPages st]) = getFilteredCIs st"
proof -
  have "getTotalPages st = \<lceil>real (length (getFilteredCIs st)) / 50\<rceil>"
    by (simp add: getTotalPages_def Let_def itemsPerPage_def)
  moreover have "getFilteredCIs st = [] \<longrightarrow> getTotalPages st = 0"
    by (simp add: getTotalPages_def)
  moreover have "\<forall>p. length (getPaginatedCIs (st\<lparr>currentPage := p\<rparr>)) \<le> 50"
    by (simp add: length_getPaginatedCIs)
  ultimately show ?thesis using concat_pages [of st] by blast
qed

theorem pages_partition_filtered_witness:
  "getFilteredCIs initialState = [] \<and> getTotalPages initialState = 0 \<and>
   getTotalPages midState = 3 \<and>
   concat (map (\<lambda>p. getPaginatedCIs (midState\<lparr>currentPage := p\<rparr>)) [1..3]) = manyCIs"
proof -
  have e: "getFilteredCIs initialState = []"
    by (simp add: getFilteredCIs_def initialState_def)
  have m: "getFilteredCIs midState = manyCIs"
    by (simp add: midState_def initialState_def getFilteredCIs_def payloadOf_def)
  from pages_partition_filtered [of initialState] e
  have a: "getTotalPages initialState = 0" by blast
  from pages_partition_filtered [of midState]
  have "concat (map (\<lambda>p. getPaginatedCIs (midState\<lparr>currentPage := p\<rparr>)) [1..getTotalPages midState])
      = getFilteredCIs midState" by blast
  then have b: "concat (map (\<lambda>p. getPaginatedCIs (midState\<lparr>currentPage := p\<rparr>)) [1..3]) = manyCIs"
    by (simp only: midState_facts(2) m)
  from e a b midState_facts(2) show ?thesis by blast
qed

section \<open>Next and previous at the bounds\<close>

text \<open>
  C6. In every state, \<open>goToNextPage\<close> on the last page and \<open>goToPrevPage\<close> on page 1 leave
  the state, and so the page, as it is. Neither wraps around: the next page is never
  below the current one nor beyond the larger of the current page and the last page, and
  the previous page is never above the current one nor below the smaller of the current
  page and 1. Both are total: there is no input on which they fail.
\<close>

theorem next_prev_stop_at_bounds:
  "(currentPage st = getTotalPages st \<longrightarrow> goToNextPage st = st) \<and>
   (currentPage st = 1 \<longrightarrow> goToPrevPage st = st) \<and>
   currentPage st \<le> currentPage (goToNextPage st) \<and>
   currentPage (goToNextPage st) \<le> max (currentPage st) (getTotalPages st) \<and>
   currentPage (goToPrevPage st) \<le> currentPage st \<and>
   min (currentPage st) 1 \<le> currentPage (goToPrevPage st)"
  by (simp add: goToNextPage_def goToPrevPage_def goToPage_def)

theorem next_prev_stop_at_bounds_witness:
  "currentPage lastPageState = getTotalPages lastPageState \<and> goToNextPage lastPageState = lastPageState \<and>
   currentPage lastPageState = 1 \<and> goToPrevPage lastPageState = lastPageState"
  using next_prev_stop_at_bounds [of lastPageState]
  by (simp add: lastPageState_facts)

section \<open>Installing a new result\<close>

text \<open>
  C7. Whenever a new scan result or an error payload is installed, the derived state
  is reset: the current page is 1, the active filter is \<open>all\<close>, no CI is expanded and
  the set of CIs with open alternate recommendations is empty.
\<close>

theorem setScanResults_resets:
  "currentPage (setScanResults (Some r) st) = 1 \<and>
   activeFilter (setScanResults (Some r) st) = ''all'' \<and>
   expandedCI (setScanResults (Some r) st) = None \<and>
   expandedAlternates (setScanResults (Some r) st) = {} \<and>
   scanResults (setScanResults (Some r) st) = Some r"
  by (simp add: setScanResults_def resetPagination_def)

section \<open>Error payloads\<close>

text \<open>
  C8 (as amended). For every payload whose \<open>error\<close> field holds a non-empty message, the
  component shows the error card with that message and nothing else: whatever summary,
  stale CIs and groups the payload carries, the view is the same.
\<close>

theorem render_error_only:
  "msg \<noteq> [] \<Longrightarrow>
   render (st\<lparr>scanResults := Some (r\<lparr>error := Some msg\<rparr>)\<rparr>) = ErrorCard msg \<and>
   render (st\<lparr>scanResults := Some (r\<lparr>error := Some msg, summary := m, stale_cis := S, grouped_by_owners := G\<rparr>)\<rparr>)
     = render (st\<lparr>scanResults := Some (r\<lparr>error := Some msg\<rparr>)\<rparr>)"
  by (simp add: render_def)

theorem render_error_only_witness:
  "''Scan failed. Please try again.'' \<noteq> [] \<and>
   render (initialState\<lparr>scanResults := Some ((payloadOf [ciAlice])\<lparr>error := Some ''Scan failed. Please try again.''\<rparr>)\<rparr>)
     = ErrorCard ''Scan failed. Please try again.''"
  using render_error_only [where msg = "''Scan failed. Please try again.''" and st = initialState and r = "payloadOf [ciAlice]"]
  by simp

text \<open>
  The claim as the specification states it fails: a payload whose \<open>error\<close> field is
  present and holds the empty string is not shown as an error; the summary cards and the
  row of its stale CI are shown.
\<close>

theorem render_empty_error_counterexample:
  "scanResults emptyErrorState = Some ((payloadOf [ciAlice])\<lparr>error := Some []\<rparr>) \<and>
   render emptyErrorState \<noteq> ErrorCard [] \<and>
   render emptyErrorState = ResultsShown \<lparr>cards = summaryCards (payloadOf [ciAlice]), rows = [ciAlice], ownerGroups = []\<rparr>"
  by (simp add: emptyErrorState_def render_def resultsView_def staleRows_def groupedSection_def
      initialState_def payloadOf_def summaryCards_def summaryValue_def getPaginatedCIs_def Let_def
      getFilteredCIs_def slice_def itemsPerPage_def)

section \<open>A page past the end\<close>

text \<open>
  C9. For every state whose page is at least 1 and whose slice would start at or past the
  end of the filtered sequence, the rows are the empty sequence: nothing is raised and
  no earlier page is shown instead.
\<close>

theorem page_past_end_is_empty:
  "1 \<le> currentPage st \<Longrightarrow> int (length (getFilteredCIs st)) \<le> (currentPage st - 1) * 50 \<Longrightarrow>
   getPaginatedCIs st = []"
  by (simp add: getPaginatedCIs_take_drop)

theorem page_past_end_is_empty_witness:
  "1 \<le> currentPage fiftyState \<and> int (length (getFilteredCIs fiftyState)) \<le> (currentPage fiftyState - 1) * 50 \<and>
   getPaginatedCIs fiftyState = []"
  using page_past_end_is_empty [of fiftyState]
  by (simp add: fiftyState_facts)

section \<open>Absent data\<close>

text \<open>
  C10. Filtering is total over absent data: when there is no scan result, or its
  \<open>stale_cis\<close> field is missing or is not an array, the filtered sequence is empty,
  whatever the active filter.
\<close>

theorem getFilteredCIs_absent_data:
  "getFilteredCIs (st\<lparr>scanResults := None\<rparr>) = [] \<and>
   getFilteredCIs (st\<lparr>scanResults := Some (r\<lparr>stale_cis := Missing\<rparr>)\<rparr>) = [] \<and>
   getFilteredCIs (st\<lparr>scanResults := Some (r\<lparr>stale_cis := NotArray\<rparr>)\<rparr>) = []"
  by (simp add: getFilteredCIs_def)

end
